theory Spec2Isabelle
  imports Complex_Main
begin

section \<open>Data model\<close>

text \<open>
  The dialogue tree of Narratium is a flat list of nodes with parent pointers
  (classes \<open>DialogueNode\<close> and \<open>DialogueTree\<close>). JavaScript strings are modelled as
  \<open>string\<close>, one \<open>char\<close> per code unit. The class \<open>ParsedResponse\<close> is imported
  by the sources from \<open>@/lib/models/parsed-response\<close>; the dialogue modal reads and writes
  only its field \<open>compressedContent\<close>.
\<close>

text \<open>Modelled from the spec: the type \<open>ParsedResponse\<close>, the optional structured
  derivative of a response, of which only the compressed summary is used.\<close>

record ParsedResponse =
  compressedContent :: "string option"

record DialogueNode =
  node_id :: string
  parent_node_id :: string
  user_input :: string
  assistant_response :: string
  full_response :: string
  parsed_content :: "ParsedResponse option"
  created_at :: string

record DialogueTree =
  tree_id :: string
  character_id :: string
  current_node_id :: string
  nodes :: "DialogueNode list"
  tree_created_at :: string
  updated_at :: string

section \<open>The current path (\<open>fetchDialogueData\<close>, the \<open>while\<close> loop)\<close>

text \<open>
  \<^verbatim>\<open>while (tempNodeId !== "root") {
    currentPathNodeIds.push(tempNodeId);
    const node = allNodes.find(n => n.node_id === tempNodeId);
    if (!node) break;
    tempNodeId = node.parent_node_id; }\<close>
  The loop has no bound of its own, so it is a partial function: \<open>None\<close> is a walk
  that never returns a path (the array grows for as long as the engine lets it).
\<close>

partial_function (option) walkPath ::
  "DialogueNode list \<Rightarrow> string \<Rightarrow> string list \<Rightarrow> string list option" where
  "walkPath allNodes tempNodeId currentPathNodeIds =
     (if tempNodeId \<noteq> ''root'' then
        (case find (\<lambda>n. node_id n = tempNodeId) allNodes of
           None \<Rightarrow> Some (currentPathNodeIds @ [tempNodeId])
         | Some node \<Rightarrow>
             walkPath allNodes (parent_node_id node) (currentPathNodeIds @ [tempNodeId]))
      else Some currentPathNodeIds)"

definition computeCurrentPath :: "DialogueNode list \<Rightarrow> string \<Rightarrow> string list option" where
  "computeCurrentPath allNodes currentNodeId = walkPath allNodes currentNodeId []"

text \<open>The parent graph of a node list: one link (parent, child) for every non-root node.\<close>

definition parent_links :: "DialogueNode list \<Rightarrow> (string \<times> string) set" where
  "parent_links allNodes =
     set (map (\<lambda>n. (parent_node_id n, node_id n))
            (filter (\<lambda>n. node_id n \<noteq> ''root'') allNodes))"

text \<open>The links the walk can follow: \<open>find\<close> returns the first node with a given id.\<close>

definition first_link :: "DialogueNode list \<Rightarrow> (string \<times> string) set" where
  "first_link allNodes =
     {(p, c). c \<noteq> ''root'' \<and>
        (\<exists>n. find (\<lambda>n. node_id n = c) allNodes = Some n \<and> parent_node_id n = p)}"

text \<open>A node carrying only an id and a parent, for the scenarios.\<close>

definition mkNode :: "string \<Rightarrow> string \<Rightarrow> DialogueNode" where
  "mkNode i p = \<lparr>node_id = i, parent_node_id = p, user_input = [],
     assistant_response = [], full_response = [], parsed_content = None, created_at = []\<rparr>"

section \<open>Values of the host language\<close>

text \<open>\<open>Array.prototype.findIndex\<close>: the index of the first match, \<open>-1\<close> when there is none.\<close>

fun findIndex :: "('a \<Rightarrow> bool) \<Rightarrow> 'a list \<Rightarrow> int" where
  "findIndex P [] = -1"
| "findIndex P (x # xs) =
     (if P x then 0 else (let i = findIndex P xs in if i < 0 then -1 else i + 1))"

text \<open>An integer inside a template literal is written in decimal.\<close>

definition digitChar :: "nat \<Rightarrow> char" where
  "digitChar d = ''0123456789'' ! d"

fun natToString :: "nat \<Rightarrow> string" where
  "natToString n =
     (if n < 10 then [digitChar n] else natToString (n div 10) @ [digitChar (n mod 10)])"

declare natToString.simps [simp del]

definition numberToString :: "int \<Rightarrow> string" where
  "numberToString i = (if i < 0 then ''-'' @ natToString (nat (- i)) else natToString (nat i))"

section \<open>The layout (\<open>fetchDialogueData\<close>)\<close>

definition nodeWidth :: real where
  "nodeWidth = 220"

definition nodeHeight :: real where
  "nodeHeight = 120"

record Layout =
  columns :: nat
  horizontalGap :: real
  verticalGap :: real

text \<open>
  \<open>calculateOptimalLayout\<close>. The numbers of the source are IEEE doubles; the model
  computes with the reals, where \<open>round x = \<lfloor>x + 1/2\<rfloor>\<close> is \<open>Math.round\<close>.
\<close>

definition calculateOptimalLayout :: "nat \<Rightarrow> Layout" where
  "calculateOptimalLayout nodeCount =
     \<lparr>columns = (if nodeCount \<le> 3 then 1 else max 1 (nat (round (sqrt (real nodeCount))))),
      horizontalGap = max 200 (500 * 0.9 ^ nodeCount),
      verticalGap = max 150 (250 * 0.95 ^ nodeCount)\<rparr>"

definition rowsOf :: "nat \<Rightarrow> nat \<Rightarrow> nat" where
  "rowsOf nodeCount cols = nat \<lceil>real nodeCount / real cols\<rceil>"

definition gridWidth :: "Layout \<Rightarrow> real" where
  "gridWidth lay = real (columns lay) * nodeWidth + (real (columns lay) - 1) * horizontalGap lay"

definition gridHeight :: "Layout \<Rightarrow> nat \<Rightarrow> real" where
  "gridHeight lay rows = real rows * nodeHeight + (real rows - 1) * verticalGap lay"

definition gridCell :: "nat \<Rightarrow> nat \<Rightarrow> nat \<times> nat" where
  "gridCell cols index = (index mod cols, index div cols)"

definition cellPosition :: "Layout \<Rightarrow> nat \<Rightarrow> nat \<times> nat \<Rightarrow> real \<times> real" where
  "cellPosition lay rows cell =
     (real (fst cell) * (nodeWidth + horizontalGap lay) - gridWidth lay / 2 + nodeWidth / 2,
      real (snd cell) * (nodeHeight + verticalGap lay) - gridHeight lay rows / 2 + nodeHeight / 2)"

text \<open>\<open>node.parsed_content?.compressedContent\<close> as a condition: a non-empty string.\<close>

definition compressedSummary :: "DialogueNode \<Rightarrow> string option" where
  "compressedSummary node =
     (case parsed_content node of
        None \<Rightarrow> None
      | Some pc \<Rightarrow>
          (case compressedContent pc of
             None \<Rightarrow> None
           | Some c \<Rightarrow> if c = [] then None else Some c))"

text \<open>The label of a node; \<open>t\<close> is the translation function of \<open>useLanguage\<close>.\<close>

definition nodeLabel :: "(string \<Rightarrow> string) \<Rightarrow> DialogueNode list \<Rightarrow> DialogueNode \<Rightarrow> string" where
  "nodeLabel t allNodes node =
     (if node_id node = ''root'' then ''root''
      else if parent_node_id node = ''root'' then
        (let rootChildren = filter (\<lambda>n. parent_node_id n = ''root'') allNodes;
             rootChildIndex = findIndex (\<lambda>n. node_id n = node_id node) rootChildren;
             rootChildrenCount = int (length rootChildren)
         in t ''dialogue.startingPoint'' @ numberToString (rootChildrenCount - rootChildIndex)
              @ (if rootChildrenCount > 1 then ''/'' @ numberToString rootChildrenCount else []))
      else if assistant_response node \<noteq> [] then
        (case compressedSummary node of
           Some c \<Rightarrow> c
         | None \<Rightarrow>
             if length (assistant_response node) > 30
             then take 30 (assistant_response node) @ ''...''
             else assistant_response node)
      else t ''dialogue.systemMessage'')"

text \<open>
  The nodes and edges handed to the graph widget. The two callbacks of a node and the
  constant style fields are left out. The regular expressions that cut the player's input
  out of \<open>user_input\<close> are parameters: \<open>matchInput\<close> is the first group of the
  \<open>input_message\<close> pattern when it matches, \<open>stripPrefix\<close> removes the leading
  "Player Input:" prefix.
\<close>

record FlowNode =
  id_node :: string
  label :: string
  fullContent :: string
  userInput :: string
  assistantResponse :: string
  parsedContent :: ParsedResponse
  isCurrentPath :: bool
  characterId_node :: string
  position :: "real \<times> real"

record FlowEdge =
  id_edge :: string
  source :: string
  target :: string
  label_edge :: string
  labelBgStroke :: string
  labelFill :: string
  stroke :: string
  strokeWidth :: nat
  animated :: bool
  className :: string

definition layoutNode ::
  "(string \<Rightarrow> string) \<Rightarrow> (string \<Rightarrow> string option) \<Rightarrow> (string \<Rightarrow> string) \<Rightarrow> string \<Rightarrow>
   DialogueNode list \<Rightarrow> string list \<Rightarrow> nat \<Rightarrow> DialogueNode \<Rightarrow> FlowNode" where
  "layoutNode t matchInput stripPrefix characterId allNodes currentPathNodeIds index node =
     (let lay = calculateOptimalLayout (length allNodes);
          rows = rowsOf (length allNodes) (columns lay);
          nodeId = node_id node
      in \<lparr>id_node = nodeId,
          label = nodeLabel t allNodes node,
          fullContent = assistant_response node,
          userInput = stripPrefix (case matchInput (user_input node) of None \<Rightarrow> [] | Some m \<Rightarrow> m),
          assistantResponse = assistant_response node,
          parsedContent = (case parsed_content node of
                             None \<Rightarrow> \<lparr>compressedContent = None\<rparr> | Some pc \<Rightarrow> pc),
          isCurrentPath = (nodeId \<in> set currentPathNodeIds),
          characterId_node = characterId,
          position = cellPosition lay rows (gridCell (columns lay) index)\<rparr>)"

definition newNodes ::
  "(string \<Rightarrow> string) \<Rightarrow> (string \<Rightarrow> string option) \<Rightarrow> (string \<Rightarrow> string) \<Rightarrow> string \<Rightarrow>
   DialogueNode list \<Rightarrow> string list \<Rightarrow> FlowNode list" where
  "newNodes t matchInput stripPrefix characterId allNodes currentPathNodeIds =
     map (\<lambda>(index, node).
            layoutNode t matchInput stripPrefix characterId allNodes currentPathNodeIds index node)
       (enumerate 0 allNodes)"

text \<open>
  \<open>nodeMap\<close> is a plain object, \<open>{}\<close>, filled by \<open>nodeMap[node.node_id] = node\<close> in one
  pass over the nodes. A plain object has its own properties and a prototype. The
  assignment makes the id an own property, a later node replacing an earlier one of the
  same id; for the id \<open>__proto__\<close> it replaces the prototype by the node instead. Without
  that, the prototype is \<open>Object.prototype\<close>, whose members are listed below.
\<close>

definition objectPrototypeKeys :: "string list" where
  "objectPrototypeKeys =
     [''constructor'', ''__defineGetter__'', ''__defineSetter__'', ''hasOwnProperty'',
      ''__lookupGetter__'', ''__lookupSetter__'', ''isPrototypeOf'', ''propertyIsEnumerable'',
      ''toString'', ''valueOf'', ''__proto__'', ''toLocaleString'']"

record NodeMap =
  ownKeys :: "string \<rightharpoonup> DialogueNode"
  protoNode :: "DialogueNode option"

definition setKey :: "DialogueNode \<Rightarrow> NodeMap \<Rightarrow> NodeMap" where
  "setKey node m =
     (if node_id node = ''__proto__'' then m\<lparr>protoNode := Some node\<rparr>
      else m\<lparr>ownKeys := (ownKeys m)(node_id node \<mapsto> node)\<rparr>)"

definition nodeMap :: "DialogueNode list \<Rightarrow> NodeMap" where
  "nodeMap allNodes = fold setKey allNodes \<lparr>ownKeys = Map.empty, protoNode = None\<rparr>"

text \<open>A property of a node read as a condition: \<open>None\<close> when the key names no field of
  a node, otherwise whether the field's value is truthy (a non-empty string, a present
  \<open>parsed_content\<close>).\<close>

definition nodeFieldTruthy :: "DialogueNode \<Rightarrow> string \<Rightarrow> bool option" where
  "nodeFieldTruthy n k =
     (if k = ''node_id'' then Some (node_id n \<noteq> [])
      else if k = ''parent_node_id'' then Some (parent_node_id n \<noteq> [])
      else if k = ''user_input'' then Some (user_input n \<noteq> [])
      else if k = ''assistant_response'' then Some (assistant_response n \<noteq> [])
      else if k = ''full_response'' then Some (full_response n \<noteq> [])
      else if k = ''parsed_content'' then Some (parsed_content n \<noteq> None)
      else if k = ''created_at'' then Some (created_at n \<noteq> [])
      else None)"

text \<open>\<open>nodeMap[k]\<close> read as a condition, as in \<open>if (nodeMap[sourceId] && nodeMap[targetId])\<close>:
  an own property is a node, which is truthy; \<open>__proto__\<close> answers with the prototype,
  an object; any other key is looked up along the prototype chain.\<close>

definition truthyAt :: "NodeMap \<Rightarrow> string \<Rightarrow> bool" where
  "truthyAt m k =
     (if k = ''__proto__'' then True
      else if ownKeys m k \<noteq> None then True
      else (case protoNode m of
              None \<Rightarrow> k \<in> set objectPrototypeKeys
            | Some n \<Rightarrow>
                (case nodeFieldTruthy n k of
                   Some b \<Rightarrow> b
                 | None \<Rightarrow> k \<in> set objectPrototypeKeys)))"

definition layoutEdge ::
  "(string \<Rightarrow> string option) \<Rightarrow> (string \<Rightarrow> string) \<Rightarrow> DialogueNode list \<Rightarrow> string list \<Rightarrow>
   DialogueNode \<Rightarrow> FlowEdge list" where
  "layoutEdge matchInput stripPrefix allNodes currentPathNodeIds node =
     (if node_id node \<noteq> [] \<and> node_id node \<noteq> ''root'' then
        (let sourceId = parent_node_id node;
             targetId = node_id node
         in if truthyAt (nodeMap allNodes) sourceId \<and> truthyAt (nodeMap allNodes) targetId then
              (let isCurrentPathEdge =
                     (sourceId \<in> set currentPathNodeIds \<and> targetId \<in> set currentPathNodeIds);
                   isRootSource = (sourceId = ''root'')
               in [\<lparr>id_edge = ''edge-'' @ sourceId @ ''-'' @ targetId,
                     source = sourceId,
                     target = targetId,
                     label_edge = (case matchInput (user_input node) of
                                     None \<Rightarrow> [] | Some m \<Rightarrow> stripPrefix m),
                     labelBgStroke = (if isRootSource then ''#7c3aed''
                                      else if isCurrentPathEdge then ''#991b1b'' else ''#3a3633''),
                     labelFill = (if isRootSource then ''#ddd6fe''
                                  else if isCurrentPathEdge then ''#fecaca'' else ''#a8a095''),
                     stroke = (if isRootSource then ''#a78bfa''
                               else if isCurrentPathEdge then ''#ef4444'' else ''#8a7a64''),
                     strokeWidth = (if isCurrentPathEdge \<or> isRootSource then 3 else 2),
                     animated = False,
                     className = (if isRootSource then ''root-source''
                                  else if isCurrentPathEdge then ''current-path''
                                  else ''other-path'')\<rparr>])
            else [])
      else [])"

definition newEdges ::
  "(string \<Rightarrow> string option) \<Rightarrow> (string \<Rightarrow> string) \<Rightarrow> DialogueNode list \<Rightarrow> string list \<Rightarrow>
   FlowEdge list" where
  "newEdges matchInput stripPrefix allNodes currentPathNodeIds =
     concat (map (layoutEdge matchInput stripPrefix allNodes currentPathNodeIds) allNodes)"

text \<open>The graph of a node list and a current node: path first, then nodes and edges.\<close>

definition buildGraph ::
  "(string \<Rightarrow> string) \<Rightarrow> (string \<Rightarrow> string option) \<Rightarrow> (string \<Rightarrow> string) \<Rightarrow> string \<Rightarrow>
   DialogueNode list \<Rightarrow> string \<Rightarrow> (FlowNode list \<times> FlowEdge list) option" where
  "buildGraph t matchInput stripPrefix characterId allNodes currentNodeId =
     (case computeCurrentPath allNodes currentNodeId of
        None \<Rightarrow> None
      | Some currentPathNodeIds \<Rightarrow>
          Some (newNodes t matchInput stripPrefix characterId allNodes currentPathNodeIds,
                newEdges matchInput stripPrefix allNodes currentPathNodeIds))"

section \<open>The modal's state and its handlers\<close>

text \<open>
  The React state of \<open>DialogueTreeModal\<close> that the handlers read and write; \<open>nodes_state\<close>
  and \<open>edges_state\<close> are the \<open>nodes\<close> and \<open>edges\<close> of the source. Timers (the tooltip
  that hides after three seconds, the modal that closes after a jump) are not modelled.
\<close>

record ModalState =
  nodes_state :: "FlowNode list"
  edges_state :: "FlowEdge list"
  nodesRef :: "FlowNode list"
  selectedNode :: "FlowNode option"
  isEditModalOpen :: bool
  editContent :: string
  isSaving :: bool
  dataLoaded :: bool
  isJumpingToNode :: bool

text \<open>
  \<open>fetchDialogueData\<close>. The answer of \<open>getCharacterDialogue\<close> is a parameter: \<open>None\<close>
  stands for every answer that makes the source throw (no success, no dialogue, no tree),
  \<open>Some\<close> carries \<open>dialogue.tree.nodes\<close> and \<open>dialogue.tree.currentNodeId\<close>.
\<close>

record TreeView =
  nodes_view :: "DialogueNode list"
  currentNodeId_view :: "string option"

definition fetchDialogueData ::
  "(string \<Rightarrow> string) \<Rightarrow> (string \<Rightarrow> string option) \<Rightarrow> (string \<Rightarrow> string) \<Rightarrow> string \<Rightarrow>
   TreeView option \<Rightarrow> ModalState \<Rightarrow> ModalState option" where
  "fetchDialogueData t matchInput stripPrefix characterId response st =
     (if characterId = [] then Some st
      else case response of
        None \<Rightarrow> Some (st\<lparr>dataLoaded := True\<rparr>)
      | Some tree \<Rightarrow>
          (let allNodes = nodes_view tree;
               currentNodeId = (case currentNodeId_view tree of
                                  None \<Rightarrow> ''root''
                                | Some c \<Rightarrow> if c = [] then ''root'' else c)
           in if allNodes = [] then Some (st\<lparr>dataLoaded := True\<rparr>)
              else (case buildGraph t matchInput stripPrefix characterId allNodes currentNodeId of
                      None \<Rightarrow> None
                    | Some (ns, es) \<Rightarrow>
                        Some (st\<lparr>nodes_state := ns, edges_state := es, nodesRef := ns,
                                 dataLoaded := True\<rparr>))))"

definition handleEditNode :: "string \<Rightarrow> ModalState \<Rightarrow> ModalState" where
  "handleEditNode nodeId st =
     (case find (\<lambda>node. id_node node = nodeId) (nodesRef st) of
        Some nodeToEdit \<Rightarrow>
          st\<lparr>selectedNode := Some nodeToEdit, editContent := assistantResponse nodeToEdit,
             isEditModalOpen := True\<rparr>
      | None \<Rightarrow> st)"

subsection \<open>Jumping to a node\<close>

text \<open>
  \<open>switchDialogueBranch\<close> (\<open>@/function/dialogue/truncate\<close>) is a parameter: it acts on a
  store \<open>'w\<close> and answers \<open>Some success\<close>, or \<open>None\<close> when the promise is rejected.
  \<open>switchCalls\<close> records its invocations.
\<close>

record 'w Backend =
  store :: 'w
  switchCalls :: "(string \<times> string) list"

definition callSwitch ::
  "(string \<Rightarrow> string \<Rightarrow> 'w \<Rightarrow> bool option \<times> 'w) \<Rightarrow> string \<Rightarrow> string \<Rightarrow> 'w Backend \<Rightarrow>
   bool option \<times> 'w Backend" where
  "callSwitch switchDialogueBranch characterId nodeId b =
     (case switchDialogueBranch characterId nodeId (store b) of
        (response, w) \<Rightarrow>
          (response, b\<lparr>store := w, switchCalls := switchCalls b @ [(characterId, nodeId)]\<rparr>))"

text \<open>
  \<open>handleJumpToNode\<close> returns \<open>true\<close>, \<open>false\<close> or nothing (\<open>None\<close>). It is a
  \<open>useCallback\<close> closure: \<open>characterId\<close>, \<open>onDialogueEdit\<close> and \<open>isJumpingToNode\<close> are the
  values of the render that created it, so the flag it tests is a parameter, not the live
  state; the state itself is set and reset by the call. The callback \<open>onDialogueEdit\<close>
  belongs to the parent component and acts on the parent's state \<open>'p\<close>.
\<close>

definition handleJumpToNode ::
  "(string \<Rightarrow> string \<Rightarrow> 'w \<Rightarrow> bool option \<times> 'w) \<Rightarrow> ('p \<Rightarrow> 'p) option \<Rightarrow> string \<Rightarrow> bool \<Rightarrow>
   string \<Rightarrow> ModalState \<times> 'w Backend \<times> 'p \<Rightarrow> bool option \<times> ModalState \<times> 'w Backend \<times> 'p" where
  "handleJumpToNode switchDialogueBranch onDialogueEdit characterId isJumpingToNode_seen nodeId sbp =
     (case sbp of (st, b, parent) \<Rightarrow>
        if characterId = [] \<or> isJumpingToNode_seen then (None, st, b, parent)
        else (case callSwitch switchDialogueBranch characterId nodeId b of
                (Some True, b') \<Rightarrow>
                  (Some True, st\<lparr>isJumpingToNode := False\<rparr>, b',
                   (case onDialogueEdit of
                      None \<Rightarrow> parent
                    | Some refresh \<Rightarrow> refresh parent))
              | (_, b') \<Rightarrow> (Some False, st\<lparr>isJumpingToNode := False\<rparr>, b', parent)))"

text \<open>The state of one \<open>DialogueNodeComponent\<close> and its \<open>handleJumpClick\<close>; \<open>onJumpClick\<close>
  is \<open>data.onJumpClick\<close>, acting on whatever lies outside the component.\<close>

record NodeComponentState =
  isExpanded :: bool
  isJumping :: bool
  showRootTooltip :: bool

definition handleJumpClick ::
  "(string \<Rightarrow> 'o \<Rightarrow> 'r \<times> 'o) \<Rightarrow> string \<Rightarrow> NodeComponentState \<times> 'o \<Rightarrow>
   NodeComponentState \<times> 'o" where
  "handleJumpClick onJumpClick nodeId co =
     (case co of (ui, outer) \<Rightarrow>
        if nodeId = ''root'' then (ui\<lparr>showRootTooltip := True\<rparr>, outer)
        else if isJumping ui then (ui, outer)
        else (case onJumpClick nodeId outer of
                (r, outer') \<Rightarrow> (ui\<lparr>isJumping := False\<rparr>, outer')))"

text \<open>What the component renders above the node while \<open>showRootTooltip\<close> is set.\<close>

definition rootTooltip :: "(string \<Rightarrow> string) \<Rightarrow> NodeComponentState \<Rightarrow> string option" where
  "rootTooltip t ui =
     (if showRootTooltip ui then Some (t ''dialogue.rootNodeCannotJump'') else None)"

text \<open>
  The jump button of a node of the modal. \<open>data.onJumpClick\<close> is the closure
  \<open>(id) => handleJumpToNode(id)\<close> that \<open>fetchDialogueData\<close> put into the node: it holds the
  \<open>handleJumpToNode\<close> of the render in which \<open>fetchDialogueData\<close> was created, and with it
  that render's \<open>isJumpingToNode\<close>.
\<close>

definition jumpButton ::
  "(string \<Rightarrow> string \<Rightarrow> 'w \<Rightarrow> bool option \<times> 'w) \<Rightarrow> ('p \<Rightarrow> 'p) option \<Rightarrow> string \<Rightarrow> bool \<Rightarrow>
   string \<Rightarrow> NodeComponentState \<times> ModalState \<times> 'w Backend \<times> 'p \<Rightarrow>
   NodeComponentState \<times> ModalState \<times> 'w Backend \<times> 'p" where
  "jumpButton switchDialogueBranch onDialogueEdit characterId isJumpingToNode_seen nodeId =
     handleJumpClick
       (handleJumpToNode switchDialogueBranch onDialogueEdit characterId isJumpingToNode_seen)
       nodeId"

subsection \<open>Editing a node\<close>

record EditRequest =
  characterId_req :: string
  nodeId_req :: string
  assistantResponse_req :: string
  model_name :: string
  api_key :: string
  base_url :: string
  llm_type :: string
  language :: string

record EditResponse =
  success :: bool
  summary :: "string option"

text \<open>\<open>localStorage.getItem(key) || dflt\<close>.\<close>

definition getItemOr :: "(string \<Rightarrow> string option) \<Rightarrow> string \<Rightarrow> string \<Rightarrow> string" where
  "getItemOr localStorage key dflt =
     (case localStorage key of None \<Rightarrow> dflt | Some v \<Rightarrow> if v = [] then dflt else v)"

definition editRequest ::
  "(string \<Rightarrow> string option) \<Rightarrow> string \<Rightarrow> FlowNode \<Rightarrow> string \<Rightarrow> EditRequest" where
  "editRequest localStorage characterId sel content =
     \<lparr>characterId_req = characterId,
      nodeId_req = id_node sel,
      assistantResponse_req = content,
      model_name = getItemOr localStorage ''modelName'' [],
      api_key = getItemOr localStorage ''apiKey'' [],
      base_url = getItemOr localStorage ''modelBaseUrl'' [],
      llm_type = getItemOr localStorage ''llmType'' ''openai'',
      language = getItemOr localStorage ''language'' ''zh''\<rparr>"

text \<open>
  \<open>saveEditContent\<close>. The call \<open>editDialaogueNodeContent\<close> is a parameter acting on a store
  \<open>'w\<close>; it answers \<open>None\<close> when the promise is rejected. A failure is caught and logged,
  and leaves the edit dialog open. \<open>onDialogueEdit\<close> acts on the parent's state \<open>'p\<close>.
\<close>

definition saveEditContent ::
  "(EditRequest \<Rightarrow> 'w \<Rightarrow> EditResponse option \<times> 'w) \<Rightarrow> ('p \<Rightarrow> 'p) option \<Rightarrow>
   (string \<Rightarrow> string option) \<Rightarrow> string \<Rightarrow> ModalState \<times> 'w \<times> 'p \<Rightarrow> ModalState \<times> 'w \<times> 'p" where
  "saveEditContent editDialaogueNodeContent onDialogueEdit localStorage characterId swp =
     (case swp of (st, w, parent) \<Rightarrow>
        (case selectedNode st of
           None \<Rightarrow> (st\<lparr>isEditModalOpen := False\<rparr>, w, parent)
         | Some sel \<Rightarrow>
             if characterId = [] then (st\<lparr>isEditModalOpen := False\<rparr>, w, parent)
             else (case editDialaogueNodeContent
                          (editRequest localStorage characterId sel (editContent st)) w of
                     (None, w') \<Rightarrow> (st\<lparr>isSaving := False\<rparr>, w', parent)
                   | (Some response, w') \<Rightarrow>
                       if \<not> success response then (st\<lparr>isSaving := False\<rparr>, w', parent)
                       else (let updatedNodes =
                                   map (\<lambda>node.
                                          if id_node node = id_node sel
                                          then node\<lparr>assistantResponse := editContent st,
                                                    parsedContent :=
                                                      \<lparr>compressedContent = summary response\<rparr>\<rparr>
                                          else node)
                                     (nodes_state st)
                             in (st\<lparr>nodes_state := updatedNodes, nodesRef := updatedNodes,
                                    isEditModalOpen := False, isSaving := False\<rparr>,
                                 w',
                                 (case onDialogueEdit of
                                    None \<Rightarrow> parent
                                  | Some refresh \<Rightarrow> refresh parent))))))"

subsection \<open>The edit operation on the tree\<close>

text \<open>Modelled from the spec: the error kinds an edit can report (section 7), a node id
  absent from the tree and a failed summarizer call.\<close>

datatype edit_error = NotFound | UpstreamFailure

text \<open>Modelled from the spec: the connection parameters of the summarizer collaborator
  (section 6): endpoint, credential, transport kind and locale.\<close>

record Connection =
  endpoint :: string
  credential :: string
  transport :: string
  locale_name :: string

text \<open>Modelled from the spec: \<open>editNodeContent\<close> (section 4.2), the operation behind
  \<open>editDialaogueNodeContent\<close> of \<open>@/function/dialogue/edit\<close>, which is not among the
  sources. The node must exist; the summarizer is called on the new text and the
  connection parameters; only when it succeeds is the node's response replaced and the
  summary stored, and \<open>updated_at\<close> set.\<close>

definition editNodeContent ::
  "DialogueTree \<Rightarrow> string \<Rightarrow> string \<Rightarrow> (string \<Rightarrow> Connection \<Rightarrow> string option) \<Rightarrow> Connection \<Rightarrow>
   string \<Rightarrow> edit_error + DialogueTree \<times> string" where
  "editNodeContent tree nodeId newText summarizer conn now =
     (if nodeId \<notin> node_id ` set (nodes tree) then Inl NotFound
      else case summarizer newText conn of
        None \<Rightarrow> Inl UpstreamFailure
      | Some s \<Rightarrow>
          Inr (tree\<lparr>nodes :=
                       map (\<lambda>n. if node_id n = nodeId
                                 then n\<lparr>assistant_response := newText,
                                        parsed_content := Some \<lparr>compressedContent = Some s\<rparr>\<rparr>
                                 else n)
                         (nodes tree),
                     updated_at := now\<rparr>, s))"

text \<open>Modelled from the spec: which fields of the request are the connection parameters
  handed to the summarizer.\<close>

definition connectionOf :: "EditRequest \<Rightarrow> Connection" where
  "connectionOf req =
     \<lparr>endpoint = base_url req, credential = api_key req, transport = llm_type req,
      locale_name = language req\<rparr>"

text \<open>Modelled from the spec: the answer of \<open>editDialaogueNodeContent\<close> to the modal, a
  success flag and the summary, over the tree as the store.\<close>

definition editDialaogueNodeContent ::
  "(string \<Rightarrow> Connection \<Rightarrow> string option) \<Rightarrow> string \<Rightarrow> EditRequest \<Rightarrow> DialogueTree \<Rightarrow>
   EditResponse option \<times> DialogueTree" where
  "editDialaogueNodeContent summarizer now req tree =
     (case editNodeContent tree (nodeId_req req) (assistantResponse_req req) summarizer
             (connectionOf req) now of
        Inl e \<Rightarrow> (Some \<lparr>success = False, summary = None\<rparr>, tree)
      | Inr (tree', s) \<Rightarrow> (Some \<lparr>success = True, summary = Some s\<rparr>, tree'))"

section \<open>Scenarios\<close>

text \<open>A tree with a root, two turns and an orphan whose parent \<open>X\<close> is missing.\<close>

definition danglingTree :: "DialogueNode list" where
  "danglingTree = [mkNode ''root'' ''root'', mkNode ''A'' ''root'', mkNode ''B'' ''A'',
     mkNode ''D'' ''X'']"

text \<open>A tree with an orphan whose parent id names a member of \<open>Object.prototype\<close>.\<close>

definition inheritedParentTree :: "DialogueNode list" where
  "inheritedParentTree = [mkNode ''root'' ''root'', mkNode ''A'' ''root'',
     mkNode ''D'' ''constructor'']"

text \<open>The tree of the scenario: a root, a first turn \<open>A\<close> and its reply \<open>B\<close>.\<close>

definition scenarioTree :: "DialogueNode list" where
  "scenarioTree = [mkNode ''root'' ''root'', mkNode ''A'' ''root'', mkNode ''B'' ''A'']"

text \<open>Stand-ins for the collaborators: a translation function that returns its key, a
  pattern that never matches and a prefix removal that removes nothing.\<close>

definition untranslated :: "string \<Rightarrow> string" where
  "untranslated key = key"

definition matchNone :: "string \<Rightarrow> string option" where
  "matchNone u = None"

definition stripNothing :: "string \<Rightarrow> string" where
  "stripNothing u = u"

text \<open>A tree of ten nodes with two direct children of the root, \<open>s1\<close> the older.\<close>

definition fullNode :: "string \<Rightarrow> string \<Rightarrow> string \<Rightarrow> string option \<Rightarrow> DialogueNode" where
  "fullNode i p response compressed = \<lparr>node_id = i, parent_node_id = p, user_input = [],
     assistant_response = response, full_response = response,
     parsed_content = (case compressed of None \<Rightarrow> None | Some c \<Rightarrow> Some \<lparr>compressedContent = Some c\<rparr>),
     created_at = []\<rparr>"

definition labelTree :: "DialogueNode list" where
  "labelTree =
     [fullNode ''root'' [] [] None,
      fullNode ''s1'' ''root'' ''Welcome, traveller.'' None,
      fullNode ''n1'' ''s1'' ''A short reply.'' None,
      fullNode ''n2'' ''n1'' ''The innkeeper leans over the counter and whispers.'' None,
      fullNode ''n3'' ''n2'' ''You follow the road north.'' (Some ''leave inn -> road north''),
      fullNode ''n4'' ''n3'' [] (Some ''S''),
      fullNode ''n5'' ''n4'' [] None,
      fullNode ''s2'' ''root'' ''A second opening.'' None,
      fullNode ''n6'' ''s2'' ''Another reply.'' None,
      fullNode ''n7'' ''n6'' ''And one more.'' None]"

text \<open>The edit scenario: node \<open>A\<close> answers \<open>foo\<close>, the user types \<open>bar\<close>, and the
  summarizer returns \<open>B-summary\<close> (or fails).\<close>

definition editTree :: DialogueTree where
  "editTree = \<lparr>tree_id = ''c'', character_id = ''c'', current_node_id = ''A'',
     nodes = [mkNode ''root'' ''root'', fullNode ''A'' ''root'' ''foo'' None],
     tree_created_at = ''t0'', updated_at = ''t0''\<rparr>"

definition emptyModal :: ModalState where
  "emptyModal = \<lparr>nodes_state = [], edges_state = [], nodesRef = [], selectedNode = None,
     isEditModalOpen = False, editContent = [], isSaving = False, dataLoaded = False,
     isJumpingToNode = False\<rparr>"

definition editModal :: ModalState where
  "editModal =
     (let ns = newNodes untranslated matchNone stripNothing ''c'' (nodes editTree) [''A'']
      in (handleEditNode ''A''
            (emptyModal\<lparr>nodes_state := ns, nodesRef := ns, dataLoaded := True\<rparr>))
         \<lparr>editContent := ''bar''\<rparr>)"

definition summarizerOk :: "string \<Rightarrow> Connection \<Rightarrow> string option" where
  "summarizerOk text conn = Some ''B-summary''"

definition summarizerDown :: "string \<Rightarrow> Connection \<Rightarrow> string option" where
  "summarizerDown text conn = None"

definition noStorage :: "string \<Rightarrow> string option" where
  "noStorage key = None"

section \<open>Properties of the current path\<close>

lemma find_node_SomeD:
  "find (\<lambda>n. node_id n = c) ns = Some n \<Longrightarrow> n \<in> set ns \<and> node_id n = c"
  by (auto simp: find_Some_iff)

lemma find_node_None: "find (\<lambda>n. node_id n = c) ns = None \<longleftrightarrow> c \<notin> node_id ` set ns"
  by (auto simp: find_None_iff)

lemma first_link_subset: "first_link ns \<subseteq> parent_links ns"
  by (auto simp: first_link_def parent_links_def dest!: find_node_SomeD)

lemma finite_parent_links: "finite (parent_links ns)"
  by (simp add: parent_links_def)

lemma acyclic_first_link: "acyclic (parent_links ns) \<Longrightarrow> acyclic (first_link ns)"
  by (rule acyclic_subset[OF _ first_link_subset])

lemma wf_first_link: "acyclic (parent_links ns) \<Longrightarrow> wf (first_link ns)"
  by (rule finite_acyclic_wf[OF finite_subset[OF first_link_subset finite_parent_links]
        acyclic_first_link])

text \<open>On an acyclic parent graph the walk returns, whatever it has collected so far: it
  appends a chain of distinct ids, none of them the root, and every id of the chain but
  the last belongs to a node of the list.\<close>

lemma walkPath_total:
  assumes ac: "acyclic (parent_links ns)"
  shows "\<exists>chain. walkPath ns t acc = Some (acc @ chain) \<and> ''root'' \<notin> set chain \<and> distinct chain
           \<and> set chain \<subseteq> {x. (x, t) \<in> (first_link ns)\<^sup>*}
           \<and> set (butlast chain) \<subseteq> node_id ` set ns - {''root''}"
  using wf_first_link[OF ac]
proof (induction t arbitrary: acc rule: wf_induct_rule)
  case (less t)
  show ?case
  proof (cases "t = ''root''")
    case True
    then have "walkPath ns t acc = Some (acc @ [])"
      by (subst walkPath.simps) simp
    then show ?thesis by fastforce
  next
    case nroot: False
    show ?thesis
    proof (cases "find (\<lambda>n. node_id n = t) ns")
      case None
      with nroot have "walkPath ns t acc = Some (acc @ [t])"
        by (subst walkPath.simps) simp
      with nroot show ?thesis by fastforce
    next
      case (Some n)
      let ?p = "parent_node_id n"
      from Some nroot have link: "(?p, t) \<in> first_link ns"
        by (auto simp: first_link_def)
      from less.IH[OF link, of "acc @ [t]"] obtain chain where
        w: "walkPath ns ?p (acc @ [t]) = Some ((acc @ [t]) @ chain)"
        and r: "''root'' \<notin> set chain" and d: "distinct chain"
        and s: "set chain \<subseteq> {x. (x, ?p) \<in> (first_link ns)\<^sup>*}"
        and b: "set (butlast chain) \<subseteq> node_id ` set ns - {''root''}"
        by blast
      from Some nroot w have 1: "walkPath ns t acc = Some (acc @ (t # chain))"
        by (subst walkPath.simps) simp
      have tr: "(x, t) \<in> (first_link ns)\<^sup>+" if "x \<in> set chain" for x
        using s that link by (auto intro: rtrancl_into_trancl1)
      have 2: "t \<notin> set chain"
        using tr acyclic_first_link[OF ac] by (auto simp: acyclic_def)
      have 3: "set (t # chain) \<subseteq> {x. (x, t) \<in> (first_link ns)\<^sup>*}"
        using tr by (auto simp: trancl_into_rtrancl)
      have tin: "t \<in> node_id ` set ns - {''root''}"
        using find_node_SomeD[OF Some] nroot by auto
      have 4: "set (butlast (t # chain)) \<subseteq> node_id ` set ns - {''root''}"
        using b tin by auto
      from 1 2 3 4 r d nroot show ?thesis
        by (intro exI[of _ "t # chain"]) simp
    qed
  qed
qed

lemma chain_length_bound:
  assumes d: "distinct chain" and b: "set (butlast chain) \<subseteq> node_id ` set ns - {''root''}"
    and root: "''root'' \<in> node_id ` set ns"
  shows "length chain \<le> length ns"
proof (cases "chain = []")
  case True
  then show ?thesis by simp
next
  case False
  have db: "distinct (butlast chain)" using d by (rule distinct_butlast)
  have "length (butlast chain) = card (set (butlast chain))"
    using db by (simp add: distinct_card)
  also have "\<dots> \<le> card (node_id ` set ns - {''root''})"
    by (rule card_mono[OF _ b]) simp
  also have "\<dots> < card (node_id ` set ns)"
    by (rule psubset_card_mono) (use root in auto)
  also have "\<dots> \<le> length ns"
    by (metis card_image_le card_length le_trans List.finite_set)
  finally have "length (butlast chain) < length ns" .
  with False show ?thesis by simp
qed

text \<open>What a returned walk looks like on any node list: the collected ids are kept,
  the root is never appended, and a start other than the root is appended first.\<close>

lemma walkPath_keeps_acc:
  assumes "walkPath ns t acc = Some p"
  shows "\<exists>chain. p = acc @ chain \<and> ''root'' \<notin> set chain
           \<and> (t \<noteq> ''root'' \<longrightarrow> chain \<noteq> [] \<and> hd chain = t)"
proof (rule walkPath.raw_induct[where P = "\<lambda>ns t acc p. \<exists>chain. p = acc @ chain
           \<and> ''root'' \<notin> set chain \<and> (t \<noteq> ''root'' \<longrightarrow> chain \<noteq> [] \<and> hd chain = t)", OF _ assms])
  fix walk :: "DialogueNode list \<Rightarrow> string \<Rightarrow> string list \<Rightarrow> string list option"
  fix ns t acc p
  assume IH: "\<And>ns t acc p. walk ns t acc = Some p \<Longrightarrow> \<exists>chain. p = acc @ chain
           \<and> ''root'' \<notin> set chain \<and> (t \<noteq> ''root'' \<longrightarrow> chain \<noteq> [] \<and> hd chain = t)"
  assume step: "(if t \<noteq> ''root'' then
        (case find (\<lambda>n. node_id n = t) ns of
           None \<Rightarrow> Some (acc @ [t])
         | Some node \<Rightarrow> walk ns (parent_node_id node) (acc @ [t]))
      else Some acc) = Some p"
  show "\<exists>chain. p = acc @ chain \<and> ''root'' \<notin> set chain
           \<and> (t \<noteq> ''root'' \<longrightarrow> chain \<noteq> [] \<and> hd chain = t)"
  proof (cases "t = ''root''")
    case True
    with step show ?thesis by simp
  next
    case nroot: False
    show ?thesis
    proof (cases "find (\<lambda>n. node_id n = t) ns")
      case None
      with nroot step show ?thesis by auto
    next
      case (Some n)
      with nroot step have *: "walk ns (parent_node_id n) (acc @ [t]) = Some p" by simp
      from IH[OF *] obtain chain where "p = (acc @ [t]) @ chain" "''root'' \<notin> set chain"
        by blast
      with nroot show ?thesis by (intro exI[of _ "t # chain"]) simp
    qed
  qed
qed

lemma computeCurrentPath_no_root:
  "computeCurrentPath allNodes cur = Some path \<Longrightarrow> ''root'' \<notin> set path"
  using walkPath_keeps_acc[of allNodes cur "[]" path] by (auto simp: computeCurrentPath_def)

lemma computeCurrentPath_has_current:
  "computeCurrentPath allNodes cur = Some path \<Longrightarrow> cur \<noteq> ''root'' \<Longrightarrow> cur \<in> set path"
  using walkPath_keeps_acc[of allNodes cur "[]" path]
  by (auto simp: computeCurrentPath_def dest: hd_in_set)

text \<open>A node that is its own parent keeps the walk going for ever.\<close>

lemma walkPath_self_parent:
  "walkPath [mkNode ''root'' ''root'', mkNode ''A'' ''A''] ''A'' acc = None"
proof (rule ccontr)
  let ?ns = "[mkNode ''root'' ''root'', mkNode ''A'' ''A'']"
  assume "walkPath ?ns ''A'' acc \<noteq> None"
  then obtain p where w: "walkPath ?ns ''A'' acc = Some p" by auto
  have "?ns = ?ns \<and> ''A'' = ''A'' \<longrightarrow> False"
  proof (rule walkPath.raw_induct[where P = "\<lambda>ns t acc p. ns = ?ns \<and> t = ''A'' \<longrightarrow> False",
        OF _ w])
    fix walk :: "DialogueNode list \<Rightarrow> string \<Rightarrow> string list \<Rightarrow> string list option"
    fix ns t acc p
    assume IH: "\<And>ns t acc p. walk ns t acc = Some p \<Longrightarrow> ns = ?ns \<and> t = ''A'' \<longrightarrow> False"
    assume step: "(if t \<noteq> ''root'' then
        (case find (\<lambda>n. node_id n = t) ns of
           None \<Rightarrow> Some (acc @ [t])
         | Some node \<Rightarrow> walk ns (parent_node_id node) (acc @ [t]))
      else Some acc) = Some p"
    show "ns = ?ns \<and> t = ''A'' \<longrightarrow> False"
    proof
      assume a: "ns = ?ns \<and> t = ''A''"
      with step have "walk ns ''A'' (acc @ [t]) = Some p" by (simp add: mkNode_def)
      from IH[OF this] a show False by simp
    qed
  qed
  then show False by simp
qed

section \<open>Claims about the current path\<close>

lemma acyclic_danglingTree: "acyclic (parent_links danglingTree)"
proof (rule acyclicI_order)
  fix a b
  assume "(a, b) \<in> parent_links danglingTree"
  then show "(if b = ''root'' then 3 else if b = ''A'' then 2 else if b = ''X'' then 1 else (0::nat))
      < (if a = ''root'' then 3 else if a = ''A'' then 2 else if a = ''X'' then 1 else 0)"
    by (auto simp: parent_links_def danglingTree_def mkNode_def)
qed

text \<open>
  C1, as stated: for every tree the walk from \<open>current_node_id\<close> along the parent links
  returns after at most \<open>|nodes|\<close> steps. It does not for every node list. The walk has
  no step bound and keeps no set of visited ids: on a node that is its own parent it
  never returns. And on a list without a root node a dangling parent makes the path one
  longer than the list.
\<close>

theorem computeCurrentPath_counterexample:
  "computeCurrentPath [mkNode ''root'' ''root'', mkNode ''A'' ''A''] ''A'' = None
   \<and> computeCurrentPath [mkNode ''B'' ''A''] ''B'' = Some [''B'', ''A'']
   \<and> \<not> length [''B'', ''A''] \<le> length [mkNode ''B'' ''A'']"
proof -
  have "computeCurrentPath [mkNode ''B'' ''A''] ''B'' = Some [''B'', ''A'']"
    by (simp add: computeCurrentPath_def walkPath.simps mkNode_def)
  then show ?thesis
    by (simp add: computeCurrentPath_def walkPath_self_parent)
qed

text \<open>
  C1, amended: for every node list that holds a root node and whose parent links
  (those of the non-root nodes) form no cycle, the walk returns, the path has at most
  \<open>|nodes|\<close> entries (one per step) and never holds \<open>"root"\<close>. A parent that is missing
  from the list stops the walk: every entry of the path but the last is the id of a node
  of the list.
\<close>

theorem computeCurrentPath_terminates:
  assumes "acyclic (parent_links allNodes)" and "''root'' \<in> node_id ` set allNodes"
  shows "\<exists>path. computeCurrentPath allNodes currentNodeId = Some path
           \<and> length path \<le> length allNodes
           \<and> ''root'' \<notin> set path
           \<and> set (butlast path) \<subseteq> node_id ` set allNodes"
proof -
  from walkPath_total[OF assms(1), of currentNodeId "[]"] obtain chain where
    w: "walkPath allNodes currentNodeId [] = Some chain"
    and r: "''root'' \<notin> set chain" and d: "distinct chain"
    and b: "set (butlast chain) \<subseteq> node_id ` set allNodes - {''root''}"
    by auto
  from chain_length_bound[OF d b assms(2)] w r b show ?thesis
    by (auto simp: computeCurrentPath_def)
qed

theorem computeCurrentPath_terminates_witness:
  "acyclic (parent_links danglingTree) \<and> ''root'' \<in> node_id ` set danglingTree
   \<and> computeCurrentPath danglingTree ''D'' = Some [''D'', ''X'']
   \<and> (\<exists>path. computeCurrentPath danglingTree ''D'' = Some path
           \<and> length path \<le> length danglingTree
           \<and> ''root'' \<notin> set path
           \<and> set (butlast path) \<subseteq> node_id ` set danglingTree)"
proof -
  have r: "''root'' \<in> node_id ` set danglingTree"
    by (simp add: danglingTree_def mkNode_def)
  have p: "computeCurrentPath danglingTree ''D'' = Some [''D'', ''X'']"
    by (simp add: computeCurrentPath_def walkPath.simps danglingTree_def mkNode_def)
  from computeCurrentPath_terminates[OF acyclic_danglingTree r, of "''D''"]
  show ?thesis using acyclic_danglingTree r p by simp
qed

lemma find_snoc:
  "find P (xs @ [x]) = (case find P xs of None \<Rightarrow> (if P x then Some x else None) | Some y \<Rightarrow> Some y)"
  by (induction xs) auto

lemma fold_setKey_own:
  "dom (ownKeys (fold setKey ns m)) = dom (ownKeys m) \<union> (node_id ` set ns - {''__proto__''})"
  by (induction ns arbitrary: m) (auto simp: setKey_def)

lemma fold_setKey_proto:
  "protoNode (fold setKey ns m) =
     (case find (\<lambda>n. node_id n = ''__proto__'') (rev ns) of
        None \<Rightarrow> protoNode m | Some n \<Rightarrow> Some n)"
  by (induction ns arbitrary: m) (auto simp: setKey_def find_snoc split: option.splits)

lemma nodeMap_own:
  "ownKeys (nodeMap ns) k \<noteq> None \<longleftrightarrow> k \<in> node_id ` set ns \<and> k \<noteq> ''__proto__''"
proof -
  have "k \<in> dom (ownKeys (nodeMap ns)) \<longleftrightarrow> k \<in> node_id ` set ns - {''__proto__''}"
    unfolding nodeMap_def fold_setKey_own by simp
  then show ?thesis by (simp add: domIff)
qed

lemma nodeMap_proto:
  "protoNode (nodeMap ns) = find (\<lambda>n. node_id n = ''__proto__'') (rev ns)"
  unfolding nodeMap_def fold_setKey_proto by (simp split: option.splits)

text \<open>The keys at which \<open>nodeMap\<close> answers truthy: the ids of the nodes, \<open>__proto__\<close>, and
  what the prototype chain holds.\<close>

lemma truthyAt_nodeMap:
  "truthyAt (nodeMap ns) k \<longleftrightarrow>
     k \<in> node_id ` set ns \<or> k = ''__proto__'' \<or>
     (case find (\<lambda>n. node_id n = ''__proto__'') (rev ns) of
        None \<Rightarrow> k \<in> set objectPrototypeKeys
      | Some n \<Rightarrow>
          (case nodeFieldTruthy n k of
             Some b \<Rightarrow> b
           | None \<Rightarrow> k \<in> set objectPrototypeKeys))"
  unfolding truthyAt_def nodeMap_own nodeMap_proto by auto

lemma truthyAt_own_id: "k \<in> node_id ` set ns \<Longrightarrow> truthyAt (nodeMap ns) k"
  by (simp add: truthyAt_nodeMap)

lemma layoutEdge_in:
  assumes "e \<in> set (layoutEdge m s allNodes path node)"
  shows "source e = parent_node_id node \<and> target e = node_id node
         \<and> node_id node \<noteq> [] \<and> node_id node \<noteq> ''root''
         \<and> truthyAt (nodeMap allNodes) (parent_node_id node)
         \<and> (className e = ''current-path'' \<longleftrightarrow>
              parent_node_id node \<noteq> ''root'' \<and> parent_node_id node \<in> set path \<and> node_id node \<in> set path)"
  using assms by (auto simp: layoutEdge_def Let_def split: if_splits)

lemma newEdges_in:
  "e \<in> set (newEdges m s allNodes path) \<longleftrightarrow> (\<exists>node\<in>set allNodes. e \<in> set (layoutEdge m s allNodes path node))"
  by (auto simp: newEdges_def)

lemma newNodes_member:
  assumes "n \<in> set (newNodes t m s c allNodes path)"
  shows "\<exists>node\<in>set allNodes. id_node n = node_id node
           \<and> isCurrentPath n = (node_id node \<in> set path)"
proof -
  from assms obtain index node where "(index, node) \<in> set (enumerate 0 allNodes)"
    and n: "n = layoutNode t m s c allNodes path index node"
    by (auto simp: newNodes_def)
  then have "node \<in> set allNodes" by (auto simp: in_set_enumerate_eq)
  with n show ?thesis by (auto simp: layoutNode_def Let_def)
qed

text \<open>
  C10, amended: when \<open>current_node_id\<close> is neither \<open>"root"\<close> nor the id of a node of the
  list, the path is exactly \<open>[current_node_id]\<close>: the id is pushed before the lookup, the
  lookup finds nothing and the walk stops. The id is in the path, but nothing is
  highlighted by it: the graph is built, no node of it is on the current path and no edge
  has the class \<open>current-path\<close>.
\<close>

theorem computeCurrentPath_dangling_current:
  assumes "currentNodeId \<noteq> ''root''" and "currentNodeId \<notin> node_id ` set allNodes"
  shows "computeCurrentPath allNodes currentNodeId = Some [currentNodeId]
     \<and> (\<exists>ns es. buildGraph t m s c allNodes currentNodeId = Some (ns, es)
          \<and> (\<forall>n\<in>set ns. \<not> isCurrentPath n)
          \<and> (\<forall>e\<in>set es. className e \<noteq> ''current-path''))"
proof -
  from assms(2) have "find (\<lambda>n. node_id n = currentNodeId) allNodes = None"
    by (simp add: find_node_None)
  with assms(1) have p: "computeCurrentPath allNodes currentNodeId = Some [currentNodeId]"
    unfolding computeCurrentPath_def by (subst walkPath.simps) simp
  have ns: "\<not> isCurrentPath n" if "n \<in> set (newNodes t m s c allNodes [currentNodeId])" for n
    using newNodes_member[OF that] assms(2) by auto
  have es: "className e \<noteq> ''current-path''"
    if "e \<in> set (newEdges m s allNodes [currentNodeId])" for e
  proof -
    from that obtain node where node: "node \<in> set allNodes"
      and e: "e \<in> set (layoutEdge m s allNodes [currentNodeId] node)"
      by (auto simp: newEdges_in)
    from node assms(2) have "node_id node \<noteq> currentNodeId" by auto
    with layoutEdge_in[OF e] show ?thesis by simp
  qed
  from p ns es show ?thesis by (simp add: buildGraph_def)
qed

theorem computeCurrentPath_dangling_current_witness:
  "''Z'' \<noteq> ''root'' \<and> ''Z'' \<notin> node_id ` set danglingTree
   \<and> computeCurrentPath danglingTree ''Z'' = Some [''Z'']
   \<and> buildGraph untranslated matchNone stripNothing ''c'' danglingTree ''Z''
        = Some (newNodes untranslated matchNone stripNothing ''c'' danglingTree [''Z''],
                newEdges matchNone stripNothing danglingTree [''Z''])
   \<and> \<not> isCurrentPath (hd (newNodes untranslated matchNone stripNothing ''c'' danglingTree [''Z'']))
   \<and> className (hd (newEdges matchNone stripNothing danglingTree [''Z''])) \<noteq> ''current-path''"
proof -
  let ?ns = "newNodes untranslated matchNone stripNothing ''c'' danglingTree [''Z'']"
  let ?es = "newEdges matchNone stripNothing danglingTree [''Z'']"
  have a: "''Z'' \<noteq> ''root''" by simp
  have b: "''Z'' \<notin> node_id ` set danglingTree"
    by (simp add: danglingTree_def mkNode_def)
  note inst = computeCurrentPath_dangling_current[OF a b, of untranslated matchNone
      stripNothing "''c''"]
  from inst have p: "computeCurrentPath danglingTree ''Z'' = Some [''Z'']" by (elim conjE)
  then have g: "buildGraph untranslated matchNone stripNothing ''c'' danglingTree ''Z''
      = Some (?ns, ?es)"
    by (simp add: buildGraph_def)
  from inst g have all: "(\<forall>n\<in>set ?ns. \<not> isCurrentPath n)
      \<and> (\<forall>e\<in>set ?es. className e \<noteq> ''current-path'')"
    by auto
  have "?ns \<noteq> []" by (simp add: newNodes_def danglingTree_def enumerate_simps)
  with all have n: "\<not> isCurrentPath (hd ?ns)" by (simp add: hd_in_set)
  have "map source ?es = [''root'', ''A'']"
    by (simp add: newEdges_def layoutEdge_def truthyAt_nodeMap Let_def danglingTree_def
        mkNode_def objectPrototypeKeys_def)
  then have "?es \<noteq> []" by auto
  with all have e: "className (hd ?es) \<noteq> ''current-path''" by (simp add: hd_in_set)
  from a b p g n e show ?thesis by (intro conjI)
qed

text \<open>
  C10, as stated, has the dangling current id highlighted as the current path. In the
  tree with the orphan and the current node id \<open>Z\<close>, which no node carries, the path is
  \<open>[Z]\<close>, none of the four nodes is on the current path, and the two edges have the
  classes \<open>root-source\<close> and \<open>other-path\<close>.
\<close>

theorem dangling_current_counterexample:
  "computeCurrentPath danglingTree ''Z'' = Some [''Z'']
   \<and> map isCurrentPath (newNodes untranslated matchNone stripNothing ''c'' danglingTree [''Z''])
        = [False, False, False, False]
   \<and> map className (newEdges matchNone stripNothing danglingTree [''Z''])
        = [''root-source'', ''other-path'']"
proof -
  have p: "computeCurrentPath danglingTree ''Z'' = Some [''Z'']"
    by (simp add: computeCurrentPath_def walkPath.simps danglingTree_def mkNode_def)
  have n: "map isCurrentPath (newNodes untranslated matchNone stripNothing ''c'' danglingTree [''Z''])
        = [False, False, False, False]"
    by (simp add: newNodes_def layoutNode_def Let_def danglingTree_def mkNode_def enumerate_simps)
  have e: "map className (newEdges matchNone stripNothing danglingTree [''Z''])
        = [''root-source'', ''other-path'']"
    by (simp add: newEdges_def layoutEdge_def truthyAt_nodeMap Let_def danglingTree_def
        mkNode_def objectPrototypeKeys_def)
  from p n e show ?thesis by (intro conjI)
qed

lemma computeCurrentPath_root: "computeCurrentPath allNodes ''root'' = Some []"
  by (simp add: computeCurrentPath_def walkPath.simps)

lemma scenario_path: "computeCurrentPath scenarioTree ''B'' = Some [''B'', ''A'']"
  by (simp add: computeCurrentPath_def walkPath.simps scenarioTree_def mkNode_def)



text \<open>\<open>fetchDialogueData\<close> stores the graph of a non-empty node list in the state, with
  \<open>"root"\<close> for a missing or empty current node id.\<close>

lemma fetchDialogueData_graph:
  assumes "characterId \<noteq> []" and "nodes_view tree \<noteq> []"
    and "buildGraph t m s characterId (nodes_view tree)
           (case currentNodeId_view tree of None \<Rightarrow> ''root''
            | Some c \<Rightarrow> if c = [] then ''root'' else c) = Some (ns, es)"
  shows "fetchDialogueData t m s characterId (Some tree) st =
           Some (st\<lparr>nodes_state := ns, edges_state := es, nodesRef := ns, dataLoaded := True\<rparr>)"
  using assms by (simp add: fetchDialogueData_def Let_def)

section \<open>Claims about the edges\<close>

text \<open>
  C2: whenever the graph is built, an emitted edge has the class \<open>current-path\<close> if and
  only if its source and its target both belong to the current path or are the current
  node id.
\<close>

theorem current_path_edge_iff:
  assumes "buildGraph t m s c allNodes currentNodeId = Some (ns, es)"
  shows "\<exists>path. computeCurrentPath allNodes currentNodeId = Some path
     \<and> (\<forall>e\<in>set es. className e = ''current-path'' \<longleftrightarrow>
            source e \<in> set path \<union> {currentNodeId} \<and> target e \<in> set path \<union> {currentNodeId})"
proof -
  from assms obtain path where p: "computeCurrentPath allNodes currentNodeId = Some path"
    and es: "es = newEdges m s allNodes path"
    by (auto simp: buildGraph_def split: option.splits)
  have nr: "''root'' \<notin> set path" by (rule computeCurrentPath_no_root[OF p])
  have em: "path = []" if "currentNodeId = ''root''"
    using p that by (simp add: computeCurrentPath_root)
  have un: "set path \<union> {currentNodeId} = (if currentNodeId = ''root'' then {''root''} else set path)"
    using em computeCurrentPath_has_current[OF p] by auto
  have "className e = ''current-path'' \<longleftrightarrow>
            source e \<in> set path \<union> {currentNodeId} \<and> target e \<in> set path \<union> {currentNodeId}"
    if "e \<in> set es" for e
  proof -
    from that es obtain node where "e \<in> set (layoutEdge m s allNodes path node)"
      by (auto simp: newEdges_in)
    from layoutEdge_in[OF this] nr em show ?thesis unfolding un by auto
  qed
  with p show ?thesis by blast
qed

lemma scenario_edges:
  "map source (newEdges m s scenarioTree [''B'', ''A'']) = [''root'', ''A'']
   \<and> map target (newEdges m s scenarioTree [''B'', ''A'']) = [''A'', ''B'']
   \<and> map className (newEdges m s scenarioTree [''B'', ''A'']) = [''root-source'', ''current-path'']
   \<and> map strokeWidth (newEdges m s scenarioTree [''B'', ''A'']) = [3, 3]"
  by (simp add: newEdges_def layoutEdge_def truthyAt_nodeMap Let_def scenarioTree_def mkNode_def)

theorem current_path_edge_iff_witness:
  "buildGraph untranslated matchNone stripNothing ''c'' scenarioTree ''B'' =
     Some (newNodes untranslated matchNone stripNothing ''c'' scenarioTree [''B'', ''A''],
           newEdges matchNone stripNothing scenarioTree [''B'', ''A''])
   \<and> computeCurrentPath scenarioTree ''B'' = Some [''B'', ''A'']
   \<and> source (last (newEdges matchNone stripNothing scenarioTree [''B'', ''A''])) = ''A''
   \<and> target (last (newEdges matchNone stripNothing scenarioTree [''B'', ''A''])) = ''B''
   \<and> className (last (newEdges matchNone stripNothing scenarioTree [''B'', ''A''])) = ''current-path''
   \<and> source (hd (newEdges matchNone stripNothing scenarioTree [''B'', ''A''])) = ''root''
   \<and> target (hd (newEdges matchNone stripNothing scenarioTree [''B'', ''A''])) = ''A''
   \<and> className (hd (newEdges matchNone stripNothing scenarioTree [''B'', ''A''])) \<noteq> ''current-path''"
proof -
  let ?es = "newEdges matchNone stripNothing scenarioTree [''B'', ''A'']"
  have g: "buildGraph untranslated matchNone stripNothing ''c'' scenarioTree ''B'' =
     Some (newNodes untranslated matchNone stripNothing ''c'' scenarioTree [''B'', ''A''], ?es)"
    by (simp add: buildGraph_def scenario_path)
  from current_path_edge_iff[OF g] scenario_path
  have iff: "\<forall>e\<in>set ?es. className e = ''current-path'' \<longleftrightarrow>
            source e \<in> set [''B'', ''A''] \<union> {''B''} \<and> target e \<in> set [''B'', ''A''] \<union> {''B''}"
    by simp
  have ne: "?es \<noteq> []" using scenario_edges[of matchNone stripNothing] by auto
  have s: "map source ?es = [''root'', ''A'']" and t: "map target ?es = [''A'', ''B'']"
    using scenario_edges[of matchNone stripNothing] by simp_all
  have ends: "source (hd ?es) = ''root''" "target (hd ?es) = ''A''"
    "source (last ?es) = ''A''" "target (last ?es) = ''B''"
    using s t ne by (simp_all add: hd_map[symmetric] last_map[symmetric])
  from iff ne have "className (last ?es) = ''current-path'' \<longleftrightarrow>
            source (last ?es) \<in> set [''B'', ''A''] \<union> {''B''} \<and> target (last ?es) \<in> set [''B'', ''A''] \<union> {''B''}"
    by (simp add: last_in_set)
  then have l: "className (last ?es) = ''current-path''" unfolding ends by simp
  from iff ne have "className (hd ?es) = ''current-path'' \<longleftrightarrow>
            source (hd ?es) \<in> set [''B'', ''A''] \<union> {''B''} \<and> target (hd ?es) \<in> set [''B'', ''A''] \<union> {''B''}"
    by (simp add: hd_in_set)
  then have h: "className (hd ?es) \<noteq> ''current-path''" unfolding ends by simp
  from g scenario_path ends l h show ?thesis by (intro conjI)
qed

text \<open>
  C3, amended: in the tree \<open>{root, A (parent root), B (parent A)}\<close> with current node
  \<open>B\<close> the path is \<open>[B, A]\<close> and two edges are emitted; \<open>A \<rightarrow> B\<close> has the class
  \<open>current-path\<close>, and \<open>root \<rightarrow> A\<close> has the class \<open>root-source\<close> and no other: its
  source is not on the path, which never holds \<open>"root"\<close>. Both are drawn 3 wide.
\<close>

theorem scenario_graph:
  "computeCurrentPath scenarioTree ''B'' = Some [''B'', ''A'']
   \<and> (\<exists>ns es. buildGraph t m s c scenarioTree ''B'' = Some (ns, es)
        \<and> map source es = [''root'', ''A'']
        \<and> map target es = [''A'', ''B'']
        \<and> map className es = [''root-source'', ''current-path'']
        \<and> map strokeWidth es = [3, 3])"
  using scenario_edges[of m s] by (simp add: buildGraph_def scenario_path)

text \<open>
  C3, as stated, has the edge \<open>root \<rightarrow> A\<close> categorized \<open>current-path\<close> as well. It is
  the first edge emitted, and its class is \<open>root-source\<close>.
\<close>

theorem scenario_counterexample:
  "computeCurrentPath scenarioTree ''B'' = Some [''B'', ''A'']
   \<and> source (newEdges matchNone stripNothing scenarioTree [''B'', ''A''] ! 0) = ''root''
   \<and> target (newEdges matchNone stripNothing scenarioTree [''B'', ''A''] ! 0) = ''A''
   \<and> className (newEdges matchNone stripNothing scenarioTree [''B'', ''A''] ! 0) = ''root-source''
   \<and> className (newEdges matchNone stripNothing scenarioTree [''B'', ''A''] ! 0) \<noteq> ''current-path''"
proof -
  have "newEdges matchNone stripNothing scenarioTree [''B'', ''A''] ! 0 =
      hd (layoutEdge matchNone stripNothing scenarioTree [''B'', ''A''] (mkNode ''A'' ''root''))"
    by (simp add: newEdges_def layoutEdge_def truthyAt_nodeMap Let_def
        scenarioTree_def mkNode_def)
  moreover have "className (hd (layoutEdge matchNone stripNothing scenarioTree [''B'', ''A'']
      (mkNode ''A'' ''root''))) = ''root-source''"
    by (simp add: layoutEdge_def truthyAt_nodeMap Let_def scenarioTree_def mkNode_def)
  moreover have "source (hd (layoutEdge matchNone stripNothing scenarioTree [''B'', ''A'']
      (mkNode ''A'' ''root''))) = ''root'' \<and> target (hd (layoutEdge matchNone stripNothing scenarioTree [''B'', ''A'']
      (mkNode ''A'' ''root''))) = ''A''"
    by (simp add: layoutEdge_def truthyAt_nodeMap Let_def scenarioTree_def mkNode_def)
  ultimately show ?thesis using scenario_path by simp
qed

lemma newEdges_ends:
  "map (\<lambda>e. (source e, target e)) (newEdges m s allNodes path) =
     map (\<lambda>n. (parent_node_id n, node_id n))
       (filter (\<lambda>n. node_id n \<noteq> [] \<and> node_id n \<noteq> ''root''
                    \<and> truthyAt (nodeMap allNodes) (parent_node_id n)) allNodes)"
proof -
  have "map (\<lambda>e. (source e, target e)) (concat (map (layoutEdge m s allNodes path) xs)) =
     map (\<lambda>n. (parent_node_id n, node_id n))
       (filter (\<lambda>n. node_id n \<noteq> [] \<and> node_id n \<noteq> ''root''
                    \<and> truthyAt (nodeMap allNodes) (parent_node_id n)) xs)"
    if "set xs \<subseteq> set allNodes" for xs
    using that by (induction xs) (auto simp: layoutEdge_def truthyAt_own_id Let_def)
  then show ?thesis by (simp add: newEdges_def)
qed

text \<open>A tree that holds only the root node yields one node and no edge, whatever the
  current node id.\<close>

lemma root_only_graph:
  assumes "node_id r = ''root''"
  shows "\<exists>n. buildGraph t m s c [r] cur = Some ([n], []) \<and> id_node n = ''root''"
proof -
  have "computeCurrentPath [r] cur = Some (if cur = ''root'' then [] else [cur])"
    using assms by (simp add: computeCurrentPath_def walkPath.simps)
  then show ?thesis
    using assms
    by (simp add: buildGraph_def newNodes_def newEdges_def layoutEdge_def enumerate_simps
        layoutNode_def Let_def)
qed

text \<open>A parent id that belongs to no node is skipped when it names no member of
  \<open>Object.prototype\<close> and no node is called \<open>__proto__\<close>.\<close>

lemma layoutEdge_dangling_skipped:
  assumes "parent_node_id node \<notin> node_id ` set allNodes"
    and "parent_node_id node \<notin> set objectPrototypeKeys"
    and "''__proto__'' \<notin> node_id ` set allNodes"
  shows "layoutEdge m s allNodes path node = []"
proof -
  have "find (\<lambda>n. node_id n = ''__proto__'') (rev allNodes) = None"
    using assms(3) by (force simp: find_None_iff image_iff)
  moreover have "parent_node_id node \<noteq> ''__proto__''"
    using assms(2) by (auto simp: objectPrototypeKeys_def)
  ultimately have "\<not> truthyAt (nodeMap allNodes) (parent_node_id node)"
    using assms(1,2) by (simp add: truthyAt_nodeMap)
  then show ?thesis by (simp add: layoutEdge_def Let_def)
qed

lemma inheritedParentTree_path:
  "computeCurrentPath inheritedParentTree ''D'' = Some [''D'', ''constructor'']"
  by (simp add: computeCurrentPath_def walkPath.simps inheritedParentTree_def mkNode_def)

lemma inheritedParentTree_edges:
  "map source (newEdges m s inheritedParentTree [''D'', ''constructor'']) = [''root'', ''constructor'']
   \<and> map target (newEdges m s inheritedParentTree [''D'', ''constructor'']) = [''A'', ''D'']
   \<and> map className (newEdges m s inheritedParentTree [''D'', ''constructor''])
        = [''root-source'', ''current-path'']"
  by (simp add: newEdges_def layoutEdge_def truthyAt_nodeMap Let_def inheritedParentTree_def
      mkNode_def objectPrototypeKeys_def)

text \<open>
  C9: the layout is to build an edge only when the node and its parent both exist in the
  node set. The test is \<open>nodeMap[sourceId] && nodeMap[targetId]\<close> on a plain object, which
  also answers for the members it inherits. In the tree \<open>{root, A (parent root),
  D (parent constructor)}\<close> with current node \<open>D\<close> no node has the id \<open>constructor\<close>,
  the path is \<open>[D, constructor]\<close>, and still two edges are emitted: \<open>root \<rightarrow> A\<close> and
  \<open>constructor \<rightarrow> D\<close>, the second with the class \<open>current-path\<close>.
\<close>

theorem dangling_parent_edge_emitted:
  "''constructor'' \<notin> node_id ` set inheritedParentTree
   \<and> computeCurrentPath inheritedParentTree ''D'' = Some [''D'', ''constructor'']
   \<and> (\<exists>ns es. buildGraph t m s c inheritedParentTree ''D'' = Some (ns, es)
        \<and> map source es = [''root'', ''constructor'']
        \<and> map target es = [''A'', ''D'']
        \<and> map className es = [''root-source'', ''current-path''])"
proof -
  have "''constructor'' \<notin> node_id ` set inheritedParentTree"
    by (simp add: inheritedParentTree_def mkNode_def)
  then show ?thesis
    using inheritedParentTree_edges[of m s]
    by (simp add: buildGraph_def inheritedParentTree_path)
qed

section \<open>Claims about the labels\<close>










section \<open>Claims about the grid\<close>

lemma columns_pos: "1 \<le> columns (calculateOptimalLayout n)"
  by (simp add: calculateOptimalLayout_def)

lemma rows_cover: "0 < c \<Longrightarrow> n \<le> c * rowsOf n c"
proof -
  assume c: "0 < c"
  have "real n / real c \<le> real_of_int \<lceil>real n / real c\<rceil>" by (rule le_of_int_ceiling)
  also have "\<dots> = real (rowsOf n c)"
    unfolding rowsOf_def by (simp add: ceiling_le_zero) 
  finally have "real n \<le> real (rowsOf n c) * real c"
    using c by (simp add: divide_le_eq)
  then have "real n \<le> real (c * rowsOf n c)" by (simp add: mult.commute)
  then show ?thesis by linarith
qed

lemma gridCell_inj: "inj_on (gridCell c) A"
proof (rule inj_onI)
  fix i j assume "gridCell c i = gridCell c j"
  then have "i mod c = j mod c" "i div c = j div c" by (simp_all add: gridCell_def)
  then show "i = j" by (metis div_mult_mod_eq)
qed

lemma gridCell_range:
  assumes "0 < c" "i < n"
  shows "fst (gridCell c i) < c \<and> snd (gridCell c i) < rowsOf n c"
proof -
  have "i < c * rowsOf n c" using rows_cover[OF assms(1), of n] assms(2) by simp
  then have "i div c < rowsOf n c" by (simp add: less_mult_imp_div_less mult.commute)
  with assms(1) show ?thesis by (simp add: gridCell_def)
qed

lemma gaps_pos: "0 < horizontalGap (calculateOptimalLayout n)" "0 < verticalGap (calculateOptimalLayout n)"
  by (simp_all add: calculateOptimalLayout_def max_def)

lemma cellPosition_inj: "inj_on (cellPosition (calculateOptimalLayout n) r) A"
proof (rule inj_onI)
  fix a b
  assume e: "cellPosition (calculateOptimalLayout n) r a = cellPosition (calculateOptimalLayout n) r b"
  let ?l = "calculateOptimalLayout n"
  have h: "nodeWidth + horizontalGap ?l \<noteq> 0" "nodeHeight + verticalGap ?l \<noteq> 0"
    using gaps_pos[of n] by (simp_all add: nodeWidth_def nodeHeight_def)
  from e have "real (fst a) * (nodeWidth + horizontalGap ?l) = real (fst b) * (nodeWidth + horizontalGap ?l)"
    and "real (snd a) * (nodeHeight + verticalGap ?l) = real (snd b) * (nodeHeight + verticalGap ?l)"
    by (simp_all add: cellPosition_def)
  with h have "fst a = fst b" "snd a = snd b" by simp_all
  then show "a = b" by (simp add: prod_eq_iff)
qed

lemma newNodes_positions:
  "map position (newNodes t m s ch allNodes path) =
     map (\<lambda>i. cellPosition (calculateOptimalLayout (length allNodes))
                 (rowsOf (length allNodes) (columns (calculateOptimalLayout (length allNodes))))
                 (gridCell (columns (calculateOptimalLayout (length allNodes))) i))
       [0..<length allNodes]"
  by (rule nth_equalityI) (simp_all add: newNodes_def layoutNode_def Let_def nth_enumerate_eq)

lemma round_sqrt_nat:
  assumes "k * k < n + k" and "n \<le> k * k + k"
  shows "round (sqrt (real n)) = int k"
proof (rule round_unique)
  have lo: "(real k - 1/2)\<^sup>2 \<le> real n"
  proof -
    have "k * k + 1 \<le> n + k" using assms(1) by simp
    then have "real (k * k + 1) \<le> real (n + k)" by (rule of_nat_mono)
    then have "real k * real k + 1 \<le> real n + real k" by simp
    then show ?thesis by (simp add: power2_eq_square algebra_simps)
  qed
  have hi: "real n < (real k + 1/2)\<^sup>2"
  proof -
    have "real n \<le> real (k * k + k)" using assms(2) by (rule of_nat_mono)
    then have "real n \<le> real k * real k + real k" by simp
    then show ?thesis by (simp add: power2_eq_square algebra_simps)
  qed
  have "real k - 1/2 \<le> sqrt (real n)" using lo by (rule real_le_rsqrt)
  then show "real_of_int (int k) \<le> sqrt (real n) + 1/2" by simp
  have "sqrt (real n) < real k + 1/2" using hi by (intro real_less_lsqrt) simp_all
  then show "sqrt (real n) - 1/2 < real_of_int (int k)" by simp
qed

lemma columns_ten: "columns (calculateOptimalLayout 10) = 3"
  using round_sqrt_nat[of 3 10] by (simp add: calculateOptimalLayout_def)


text \<open>
  C5: for a tree of \<open>n\<close> nodes the layout has one column when \<open>n \<le> 3\<close> and
  \<open>max 1 (round (sqrt n))\<close> columns otherwise, and \<open>\<lceil>n / columns\<rceil>\<close> rows, so that
  \<open>columns * rows \<ge> n\<close>. The node of index \<open>i\<close> is placed in the cell
  \<open>(i mod columns, i div columns)\<close>: the cells of the \<open>n\<close> indices are pairwise
  different and lie inside the grid, and so the positions of the nodes are pairwise
  different.
\<close>

theorem grid_layout:
  "(let n = length allNodes;
        lay = calculateOptimalLayout n;
        cols = columns lay;
        rows = rowsOf n cols
    in cols = (if n \<le> 3 then 1 else max 1 (nat (round (sqrt (real n)))))
       \<and> rows = nat \<lceil>real n / real cols\<rceil>
       \<and> n \<le> cols * rows
       \<and> inj_on (gridCell cols) {..<n}
       \<and> gridCell cols ` {..<n} \<subseteq> {..<cols} \<times> {..<rows}
       \<and> map position (newNodes t m s ch allNodes path)
             = map (\<lambda>i. cellPosition lay rows (gridCell cols i)) [0..<n]
       \<and> distinct (map position (newNodes t m s ch allNodes path)))"
proof -
  let ?n = "length allNodes"
  let ?lay = "calculateOptimalLayout ?n"
  let ?c = "columns ?lay"
  let ?r = "rowsOf ?n ?c"
  have c: "0 < ?c" using columns_pos[of ?n] by simp
  have 1: "?c = (if ?n \<le> 3 then 1 else max 1 (nat (round (sqrt (real ?n)))))"
    by (simp add: calculateOptimalLayout_def)
  have 2: "?r = nat \<lceil>real ?n / real ?c\<rceil>" by (simp add: rowsOf_def)
  have 3: "?n \<le> ?c * ?r" by (rule rows_cover[OF c])
  have 4: "inj_on (gridCell ?c) {..<?n}" by (rule gridCell_inj)
  have 5: "gridCell ?c ` {..<?n} \<subseteq> {..<?c} \<times> {..<?r}"
  proof
    fix x assume "x \<in> gridCell ?c ` {..<?n}"
    then obtain i where i: "i < ?n" and x: "x = gridCell ?c i" by auto
    from gridCell_range[OF c i] x show "x \<in> {..<?c} \<times> {..<?r}"
      by (simp add: mem_Times_iff)
  qed
  have 6: "map position (newNodes t m s ch allNodes path)
             = map (\<lambda>i. cellPosition ?lay ?r (gridCell ?c i)) [0..<?n]"
    by (rule newNodes_positions)
  have "inj_on (\<lambda>i. cellPosition ?lay ?r (gridCell ?c i)) (set [0..<?n])"
    using comp_inj_on[OF gridCell_inj[of ?c "set [0..<?n]"]
        cellPosition_inj[of ?n ?r "gridCell ?c ` set [0..<?n]"]]
    by (simp add: comp_def)
  then have 7: "distinct (map position (newNodes t m s ch allNodes path))"
    unfolding 6 by (simp add: distinct_map)
  from 1 2 3 4 5 6 7 show ?thesis unfolding Let_def by (intro conjI)
qed

theorem grid_layout_witness:
  "columns (calculateOptimalLayout (length labelTree)) = 3
   \<and> rowsOf (length labelTree) 3 = 4
   \<and> length labelTree \<le> 3 * 4
   \<and> distinct (map position (newNodes untranslated matchNone stripNothing ''c'' labelTree []))"
proof -
  have l: "length labelTree = 10" by (simp add: labelTree_def)
  have r: "rowsOf 10 3 = 4"
  proof -
    have "\<lceil>(10::real) / 3\<rceil> = 4" by (rule ceiling_unique) simp_all
    then show ?thesis by (simp add: rowsOf_def)
  qed
  note inst = grid_layout[of labelTree untranslated matchNone stripNothing "''c''" "[]",
      unfolded Let_def l columns_ten r]
  from inst
  have "distinct (map position (newNodes untranslated matchNone stripNothing ''c'' labelTree []))"
    by (elim conjE)
  then show ?thesis unfolding l columns_ten r by simp
qed

section \<open>Claims about jumping and editing\<close>

text \<open>
  C8: a click on the jump button of the node \<open>"root"\<close> only raises the tooltip
  "root node cannot jump": \<open>switchDialogueBranch\<close> is not invoked, and the modal, the
  store with its \<open>current_node_id\<close> and the parent are left as they were. No other
  click raises the tooltip.
\<close>

theorem jump_to_root_rejected:
  fixes b :: "DialogueTree Backend"
  shows "jumpButton switchDialogueBranch onDialogueEdit characterId seen ''root''
             (ui, st, b, parent)
           = (ui\<lparr>showRootTooltip := True\<rparr>, st, b, parent)
   \<and> rootTooltip t (fst (jumpButton switchDialogueBranch onDialogueEdit characterId seen ''root''
                          (ui, st, b, parent)))
           = Some (t ''dialogue.rootNodeCannotJump'')
   \<and> switchCalls (fst (snd (snd (jumpButton switchDialogueBranch onDialogueEdit characterId seen
                          ''root'' (ui, st, b, parent)))))
           = switchCalls b
   \<and> current_node_id (store (fst (snd (snd (jumpButton switchDialogueBranch onDialogueEdit
                          characterId seen ''root'' (ui, st, b, parent))))))
           = current_node_id (store b)
   \<and> showRootTooltip (fst (jumpButton switchDialogueBranch onDialogueEdit characterId seen nodeId
                          (ui, st, b, parent)))
           = (nodeId = ''root'' \<or> showRootTooltip ui)"
  by (simp add: jumpButton_def handleJumpClick_def rootTooltip_def split: prod.splits)

lemma editNodeContent_success:
  assumes "nodeId \<in> node_id ` set (nodes tree)"
    and "summarizer newText conn = Some s"
  shows "editNodeContent tree nodeId newText summarizer conn now =
     Inr (tree\<lparr>nodes := map (\<lambda>n. if node_id n = nodeId
                                 then n\<lparr>assistant_response := newText,
                                        parsed_content := Some \<lparr>compressedContent = Some s\<rparr>\<rparr>
                                 else n) (nodes tree),
               updated_at := now\<rparr>, s)"
  using assms by (simp add: editNodeContent_def)

lemma editNodeContent_failure:
  assumes "nodeId \<in> node_id ` set (nodes tree)"
    and "summarizer newText conn = None"
  shows "editNodeContent tree nodeId newText summarizer conn now = Inl UpstreamFailure"
  using assms by (simp add: editNodeContent_def)

lemma editRequest_fields:
  "nodeId_req (editRequest ls ch sel content) = id_node sel"
  "assistantResponse_req (editRequest ls ch sel content) = content"
  by (simp_all add: editRequest_def)

text \<open>What \<open>saveEditContent\<close> does with the answer of the call, whatever the call is: a
  rejected promise and an answer without success leave the nodes of the view as they
  were; a success rewrites the nodes that carry the selected id.\<close>

lemma saveEditContent_failed:
  assumes "selectedNode st = Some sel" and "characterId \<noteq> []"
    and "call (editRequest localStorage characterId sel (editContent st)) w = (r, w')"
    and "r = None \<or> (\<exists>response. r = Some response \<and> \<not> success response)"
  shows "saveEditContent call onDialogueEdit localStorage characterId (st, w, parent)
           = (st\<lparr>isSaving := False\<rparr>, w', parent)"
  using assms by (auto simp: saveEditContent_def)

lemma saveEditContent_succeeded:
  assumes "selectedNode st = Some sel" and "characterId \<noteq> []"
    and "call (editRequest localStorage characterId sel (editContent st)) w = (Some response, w')"
    and "success response"
  shows "saveEditContent call onDialogueEdit localStorage characterId (st, w, parent)
           = (st\<lparr>nodes_state :=
                   map (\<lambda>node. if id_node node = id_node sel
                                then node\<lparr>assistantResponse := editContent st,
                                          parsedContent :=
                                            \<lparr>compressedContent = summary response\<rparr>\<rparr>
                                else node) (nodes_state st),
                 nodesRef :=
                   map (\<lambda>node. if id_node node = id_node sel
                                then node\<lparr>assistantResponse := editContent st,
                                          parsedContent :=
                                            \<lparr>compressedContent = summary response\<rparr>\<rparr>
                                else node) (nodes_state st),
                 isEditModalOpen := False, isSaving := False\<rparr>,
              w', (case onDialogueEdit of None \<Rightarrow> parent | Some refresh \<Rightarrow> refresh parent))"
  using assms by (simp add: saveEditContent_def Let_def)

lemma editModal_selected:
  "selectedNode editModal = Some (last (nodes_state editModal))"
  "editContent editModal = ''bar''"
  "id_node (last (nodes_state editModal)) = ''A''"
  "map id_node (nodes_state editModal) = [''root'', ''A'']"
  "map assistantResponse (nodes_state editModal) = [[], ''foo'']"
  by (simp_all add: editModal_def handleEditNode_def emptyModal_def newNodes_def editTree_def
      enumerate_simps layoutNode_def Let_def mkNode_def fullNode_def)

lemma editTree_ids: "node_id ` set (nodes editTree) = {''root'', ''A''}"
  by (simp add: editTree_def mkNode_def fullNode_def)

text \<open>
  C6: when the selected node exists in the tree and the summarizer succeeds, the edit
  succeeds. In the tree the nodes with the selected id get the new text as
  \<open>assistant_response\<close> and the summary as \<open>compressedContent\<close> of \<open>parsed_content\<close>;
  every other field and every other node is unchanged, and so are the ids, the parent
  ids and \<open>current_node_id\<close>. The view changes in the same way: the nodes with the
  selected id show the new text and the summary, the others and the edges are unchanged.
\<close>

theorem edit_success_frame:
  assumes sel: "selectedNode st = Some sel" and ch: "characterId \<noteq> []"
    and ex: "id_node sel \<in> node_id ` set (nodes tree)"
    and sm: "summarizer (editContent st)
               (connectionOf (editRequest localStorage characterId sel (editContent st))) = Some s"
  shows "\<exists>tree' st'.
       editNodeContent tree (id_node sel) (editContent st) summarizer
         (connectionOf (editRequest localStorage characterId sel (editContent st))) now
         = Inr (tree', s)
     \<and> saveEditContent (editDialaogueNodeContent summarizer now) onDialogueEdit localStorage
         characterId (st, tree, parent)
         = (st', tree', (case onDialogueEdit of None \<Rightarrow> parent | Some refresh \<Rightarrow> refresh parent))
     \<and> map node_id (nodes tree') = map node_id (nodes tree)
     \<and> map parent_node_id (nodes tree') = map parent_node_id (nodes tree)
     \<and> current_node_id tree' = current_node_id tree
     \<and> nodes tree' =
           map (\<lambda>n. if node_id n = id_node sel
                     then n\<lparr>assistant_response := editContent st,
                            parsed_content := Some \<lparr>compressedContent = Some s\<rparr>\<rparr>
                     else n) (nodes tree)
     \<and> map id_node (nodes_state st') = map id_node (nodes_state st)
     \<and> edges_state st' = edges_state st
     \<and> nodes_state st' =
           map (\<lambda>node. if id_node node = id_node sel
                        then node\<lparr>assistantResponse := editContent st,
                                  parsedContent := \<lparr>compressedContent = Some s\<rparr>\<rparr>
                        else node) (nodes_state st)"
proof -
  let ?req = "editRequest localStorage characterId sel (editContent st)"
  let ?tree' = "tree\<lparr>nodes := map (\<lambda>n. if node_id n = id_node sel
                     then n\<lparr>assistant_response := editContent st,
                            parsed_content := Some \<lparr>compressedContent = Some s\<rparr>\<rparr>
                     else n) (nodes tree), updated_at := now\<rparr>"
  let ?upd = "map (\<lambda>node. if id_node node = id_node sel
                        then node\<lparr>assistantResponse := editContent st,
                                  parsedContent := \<lparr>compressedContent = Some s\<rparr>\<rparr>
                        else node) (nodes_state st)"
  let ?st' = "st\<lparr>nodes_state := ?upd, nodesRef := ?upd, isEditModalOpen := False,
                 isSaving := False\<rparr>"
  have e: "editNodeContent tree (id_node sel) (editContent st) summarizer (connectionOf ?req) now
      = Inr (?tree', s)"
    using ex sm by (rule editNodeContent_success)
  then have be: "editDialaogueNodeContent summarizer now ?req tree
      = (Some \<lparr>success = True, summary = Some s\<rparr>, ?tree')"
    by (simp add: editDialaogueNodeContent_def editRequest_fields)
  have sv: "saveEditContent (editDialaogueNodeContent summarizer now) onDialogueEdit localStorage
         characterId (st, tree, parent)
         = (?st', ?tree', (case onDialogueEdit of None \<Rightarrow> parent | Some refresh \<Rightarrow> refresh parent))"
    using saveEditContent_succeeded[where call = "editDialaogueNodeContent summarizer now"
        and onDialogueEdit = onDialogueEdit and parent = parent, OF sel ch be]
    by simp
  have t1: "map node_id (nodes ?tree') = map node_id (nodes tree)"
    by (simp add: comp_def cong: map_cong)
  have t2: "map parent_node_id (nodes ?tree') = map parent_node_id (nodes tree)"
    by (simp add: comp_def cong: map_cong)
  have v1: "map id_node (nodes_state ?st') = map id_node (nodes_state st)"
    by (simp add: comp_def cong: map_cong)
  show ?thesis
    apply (rule exI[of _ ?tree'])
    apply (rule exI[of _ ?st'])
    using e sv t1 t2 v1 by simp
qed

theorem edit_success_frame_witness:
  "selectedNode editModal = Some (last (nodes_state editModal))
   \<and> ''c'' \<noteq> []
   \<and> id_node (last (nodes_state editModal)) \<in> node_id ` set (nodes editTree)
   \<and> summarizerOk (editContent editModal)
        (connectionOf (editRequest noStorage ''c'' (last (nodes_state editModal))
           (editContent editModal))) = Some ''B-summary''
   \<and> (\<exists>tree' st'.
         saveEditContent (editDialaogueNodeContent summarizerOk ''t1'') None noStorage ''c''
           (editModal, editTree, ()) = (st', tree', ())
       \<and> nodes tree' =
           [mkNode ''root'' ''root'',
            (fullNode ''A'' ''root'' ''foo'' None)
              \<lparr>assistant_response := ''bar'',
               parsed_content := Some \<lparr>compressedContent = Some ''B-summary''\<rparr>\<rparr>]
       \<and> map id_node (nodes_state st') = [''root'', ''A'']
       \<and> map assistantResponse (nodes_state st') = [[], ''bar'']
       \<and> map (compressedContent \<circ> parsedContent) (nodes_state st') = [None, Some ''B-summary''])"
proof -
  have h1: "selectedNode editModal = Some (last (nodes_state editModal))"
    by (rule editModal_selected)
  have h2: "''c'' \<noteq> []" by simp
  have h3: "id_node (last (nodes_state editModal)) \<in> node_id ` set (nodes editTree)"
    unfolding editModal_selected(3) editTree_ids by simp
  have h4: "summarizerOk (editContent editModal)
        (connectionOf (editRequest noStorage ''c'' (last (nodes_state editModal))
           (editContent editModal))) = Some ''B-summary''"
    by (simp add: summarizerOk_def)
  from edit_success_frame[where summarizer = summarizerOk and st = editModal
      and sel = "last (nodes_state editModal)" and characterId = "''c''" and tree = editTree
      and localStorage = noStorage and s = "''B-summary''" and now = "''t1''"
      and onDialogueEdit = None and parent = "()", OF h1 h2 h3 h4]
  obtain tree' st' where
    sv: "saveEditContent (editDialaogueNodeContent summarizerOk ''t1'') None noStorage ''c''
           (editModal, editTree, ()) = (st', tree', ())"
    and tn: "nodes tree' =
           map (\<lambda>n. if node_id n = id_node (last (nodes_state editModal))
                     then n\<lparr>assistant_response := editContent editModal,
                            parsed_content := Some \<lparr>compressedContent = Some ''B-summary''\<rparr>\<rparr>
                     else n) (nodes editTree)"
    and vi: "map id_node (nodes_state st') = map id_node (nodes_state editModal)"
    and vn: "nodes_state st' =
           map (\<lambda>node. if id_node node = id_node (last (nodes_state editModal))
                        then node\<lparr>assistantResponse := editContent editModal,
                                  parsedContent := \<lparr>compressedContent = Some ''B-summary''\<rparr>\<rparr>
                        else node) (nodes_state editModal)"
    by auto
  have 1: "nodes tree' = [mkNode ''root'' ''root'',
            (fullNode ''A'' ''root'' ''foo'' None)
              \<lparr>assistant_response := ''bar'',
               parsed_content := Some \<lparr>compressedContent = Some ''B-summary''\<rparr>\<rparr>]"
    unfolding tn editModal_selected by (simp add: editTree_def mkNode_def fullNode_def)
  have 2: "map id_node (nodes_state st') = [''root'', ''A'']"
    unfolding vi by (rule editModal_selected)
  have 3: "map assistantResponse (nodes_state st') = [[], ''bar'']
      \<and> map (compressedContent \<circ> parsedContent) (nodes_state st') = [None, Some ''B-summary'']"
    unfolding vn editModal_selected(2,3)
    by (simp add: editModal_def handleEditNode_def emptyModal_def newNodes_def editTree_def
      enumerate_simps layoutNode_def Let_def mkNode_def fullNode_def)
  from sv 1 2 3 have "\<exists>tree' st'.
         saveEditContent (editDialaogueNodeContent summarizerOk ''t1'') None noStorage ''c''
           (editModal, editTree, ()) = (st', tree', ())
       \<and> nodes tree' =
           [mkNode ''root'' ''root'',
            (fullNode ''A'' ''root'' ''foo'' None)
              \<lparr>assistant_response := ''bar'',
               parsed_content := Some \<lparr>compressedContent = Some ''B-summary''\<rparr>\<rparr>]
       \<and> map id_node (nodes_state st') = [''root'', ''A'']
       \<and> map assistantResponse (nodes_state st') = [[], ''bar'']
       \<and> map (compressedContent \<circ> parsedContent) (nodes_state st') = [None, Some ''B-summary'']"
    by (intro exI[of _ tree'] exI[of _ st'] conjI) (elim conjE, assumption)+
  with h1 h2 h3 h4 show ?thesis by (intro conjI)
qed

text \<open>
  C7: when the selected node exists and the summarizer fails, the edit fails with
  \<open>UpstreamFailure\<close>, the tree is unchanged, and the view keeps its nodes and edges and
  the open dialog: only \<open>isSaving\<close> is reset.
\<close>

theorem edit_failure_keeps_state:
  assumes sel: "selectedNode st = Some sel" and ch: "characterId \<noteq> []"
    and ex: "id_node sel \<in> node_id ` set (nodes tree)"
    and sm: "summarizer (editContent st)
               (connectionOf (editRequest localStorage characterId sel (editContent st))) = None"
  shows "editNodeContent tree (id_node sel) (editContent st) summarizer
         (connectionOf (editRequest localStorage characterId sel (editContent st))) now
         = Inl UpstreamFailure
     \<and> saveEditContent (editDialaogueNodeContent summarizer now) onDialogueEdit localStorage
         characterId (st, tree, parent)
         = (st\<lparr>isSaving := False\<rparr>, tree, parent)"
proof -
  let ?req = "editRequest localStorage characterId sel (editContent st)"
  have e: "editNodeContent tree (id_node sel) (editContent st) summarizer (connectionOf ?req) now
      = Inl UpstreamFailure"
    using ex sm by (rule editNodeContent_failure)
  then have be: "editDialaogueNodeContent summarizer now ?req tree
      = (Some \<lparr>success = False, summary = None\<rparr>, tree)"
    by (simp add: editDialaogueNodeContent_def editRequest_fields)
  have "saveEditContent (editDialaogueNodeContent summarizer now) onDialogueEdit localStorage
         characterId (st, tree, parent) = (st\<lparr>isSaving := False\<rparr>, tree, parent)"
    using saveEditContent_failed[where call = "editDialaogueNodeContent summarizer now"
        and onDialogueEdit = onDialogueEdit and parent = parent, OF sel ch be]
    by simp
  with e show ?thesis by simp
qed

theorem edit_failure_keeps_state_witness:
  "selectedNode editModal = Some (last (nodes_state editModal))
   \<and> ''c'' \<noteq> []
   \<and> id_node (last (nodes_state editModal)) \<in> node_id ` set (nodes editTree)
   \<and> summarizerDown (editContent editModal)
        (connectionOf (editRequest noStorage ''c'' (last (nodes_state editModal))
           (editContent editModal))) = None
   \<and> editNodeContent editTree ''A'' ''bar'' summarizerDown
         (connectionOf (editRequest noStorage ''c'' (last (nodes_state editModal)) ''bar'')) ''t1''
         = Inl UpstreamFailure
   \<and> saveEditContent (editDialaogueNodeContent summarizerDown ''t1'') None noStorage ''c''
         (editModal, editTree, ()) = (editModal\<lparr>isSaving := False\<rparr>, editTree, ())"
proof -
  have h1: "selectedNode editModal = Some (last (nodes_state editModal))"
    by (rule editModal_selected)
  have h2: "''c'' \<noteq> []" by simp
  have h3: "id_node (last (nodes_state editModal)) \<in> node_id ` set (nodes editTree)"
    unfolding editModal_selected(3) editTree_ids by simp
  have h4: "summarizerDown (editContent editModal)
        (connectionOf (editRequest noStorage ''c'' (last (nodes_state editModal))
           (editContent editModal))) = None"
    by (simp add: summarizerDown_def)
  from edit_failure_keeps_state[where summarizer = summarizerDown and st = editModal
      and sel = "last (nodes_state editModal)" and characterId = "''c''" and tree = editTree
      and localStorage = noStorage and now = "''t1''"
      and onDialogueEdit = None and parent = "()", OF h1 h2 h3 h4] h1 h2 h3 h4
  show ?thesis by (simp add: editModal_selected)
qed

end
